theory Spec2Isabelle
  imports Main
begin

section \<open>Duplicate / Rename / Template: a model of \<^verbatim>\<open>script.py\<close>\<close>

text \<open>
  The script is one procedure, \<^verbatim>\<open>main\<close>, that drives a host application: it asks
  the user for views and for a discipline, opens a transaction, and for every selected
  3D view duplicates it, renames the duplicate and assigns a view template.

  The host application is not part of the repository. Its document is an abstract state
  \<open>'d\<close>, and the host calls the script makes are the fields of a record of functions
  (\<open>'d host\<close>): every theorem below holds for every behaviour of the host. A host call
  that raises returns \<open>Inl\<close> with the text of the exception and leaves the document as
  it was; a call that returns gives \<open>Inr\<close> with the new document.
\<close>

subsection \<open>Python strings\<close>

text \<open>
  \<^verbatim>\<open>s.find(c)\<close> for a one-character \<^verbatim>\<open>c\<close>: the index of the first occurrence, or
  \<open>-1\<close>. The characters the script looks for and appends (\<^verbatim>\<open>_\<close> and \<^verbatim>\<open>*\<close>) are
  ASCII, so a string can be read as its bytes: no byte of a longer UTF-8 sequence equals
  an ASCII character.
\<close>

fun str_find :: "string \<Rightarrow> char \<Rightarrow> int" where
  "str_find [] c = - 1"
| "str_find (x # xs) c =
     (if x = c then 0
      else (let r = str_find xs c in if r = - 1 then - 1 else r + 1))"

text \<open>The slice \<^verbatim>\<open>s[k:]\<close>; a negative \<^verbatim>\<open>k\<close> counts from the end.\<close>

definition slice_from :: "string \<Rightarrow> int \<Rightarrow> string" where
  "slice_from s k =
     (if k < 0 then drop (nat (max 0 (int (length s) + k))) s else drop (nat k) s)"

text \<open>\<^verbatim>\<open>'{}'.format(n)\<close> for a counter \<^verbatim>\<open>n\<close>: its decimal digits.\<close>

fun str_nat :: "nat \<Rightarrow> string" where
  "str_nat n =
     (if n < 10 then [char_of (48 + n)]
      else str_nat (n div 10) @ [char_of (48 + n mod 10)])"

declare str_nat.simps [simp del]

subsection \<open>The discipline table (lines 44 to 61)\<close>

definition options :: "string list" where
  "options = [''Architectural'', ''Mechanical'', ''Plumbing'', ''Fire Protection'', ''Electrical'']"

record mapping_entry =
  prefix :: string
  template :: string

text \<open>The dictionary literal, in the order it is written.\<close>

definition system_mapping :: "(string \<times> mapping_entry) list" where
  "system_mapping =
     [(''Architectural'', \<lparr>prefix = ''A_'', template = ''ARCHITECTURE GLUE''\<rparr>),
      (''Mechanical'', \<lparr>prefix = ''MD_'', template = ''MECHANICAL GLUE''\<rparr>),
      (''Plumbing'', \<lparr>prefix = ''PL_'', template = ''PLUMBING GLUE''\<rparr>),
      (''Fire Protection'', \<lparr>prefix = ''FP_'', template = ''FIRE PROTECTION GLUE''\<rparr>),
      (''Electrical'', \<lparr>prefix = ''EE_'', template = ''ELECTRICAL GLUE''\<rparr>)]"

subsection \<open>The new name (lines 77 to 83)\<close>

definition compute_new_name :: "string \<Rightarrow> string \<Rightarrow> string" where
  "compute_new_name pre old_name =
     (let underscore_index = str_find old_name (CHR ''_'')
      in if underscore_index \<noteq> - 1
         then pre @ slice_from old_name (underscore_index + 1)
         else pre @ old_name)"

subsection \<open>The host's objects and calls\<close>

type_synonym elem_id = nat

text \<open>An exception is the text \<^verbatim>\<open>'{}'.format(e)\<close> gives for it.\<close>

type_synonym exn = string

text \<open>
  A view object of the selection: its element id and its class, which
  \<^verbatim>\<open>isinstance(view, View3D)\<close> reads.
\<close>

datatype view_obj = View3D elem_id | OtherView elem_id

fun Id :: "view_obj \<Rightarrow> elem_id" where
  "Id (View3D i) = i"
| "Id (OtherView i) = i"

fun isinstance_View3D :: "view_obj \<Rightarrow> bool" where
  "isinstance_View3D (View3D i) = True"
| "isinstance_View3D (OtherView i) = False"

text \<open>
  The host calls of the loop: \<^verbatim>\<open>view.Duplicate(ViewDuplicateOption.Duplicate)\<close> (with
  \<^verbatim>\<open>doc.GetElement\<close> of the id it returns), reading and assigning \<^verbatim>\<open>.Name\<close>,
  \<^verbatim>\<open>FilteredElementCollector(doc).OfClass(View)\<close>, and assigning
  \<^verbatim>\<open>.ViewTemplateId\<close>. The duplication and the two assignments may raise; reading a
  name and collecting the views are taken to return.
\<close>

record 'd host =
  Duplicate :: "'d \<Rightarrow> elem_id \<Rightarrow> exn + 'd \<times> elem_id"
  get_Name :: "'d \<Rightarrow> elem_id \<Rightarrow> string"
  set_Name :: "'d \<Rightarrow> elem_id \<Rightarrow> string \<Rightarrow> exn + 'd"
  collect_Views :: "'d \<Rightarrow> elem_id list"
  set_ViewTemplateId :: "'d \<Rightarrow> elem_id \<Rightarrow> elem_id \<Rightarrow> exn + 'd"

subsection \<open>Ensure unique name (lines 86 to 92)\<close>

text \<open>
  \<^verbatim>\<open>for i in range(n)\<close> with the \<^verbatim>\<open>try\<close> inside: an assignment that returns prints
  the line and breaks; one that raises (anything: the \<^verbatim>\<open>except\<close> is bare) appends an
  asterisk. The state is the document and the console; the candidate name is returned
  too, since line 109 reads it.
\<close>

fun rename_attempts ::
  "'d host \<Rightarrow> nat \<Rightarrow> elem_id \<Rightarrow> string \<Rightarrow> 'd \<times> string list \<Rightarrow> string
     \<Rightarrow> 'd \<times> string list \<times> string" where
  "rename_attempts h 0 duplicated_view old_name (d, out) new_name = (d, out, new_name)"
| "rename_attempts h (Suc n) duplicated_view old_name (d, out) new_name =
     (case set_Name h d duplicated_view new_name of
        Inr d' \<Rightarrow> (d', out @ [old_name @ '' -> '' @ new_name], new_name)
      | Inl e \<Rightarrow> rename_attempts h n duplicated_view old_name (d, out) (new_name @ ''*''))"

subsection \<open>Find and assign the view template (lines 95 to 109)\<close>

text \<open>The loop over the collector, with its \<^verbatim>\<open>break\<close> at the first equal name.\<close>

fun find_template :: "'d host \<Rightarrow> 'd \<Rightarrow> string \<Rightarrow> elem_id list \<Rightarrow> elem_id option" where
  "find_template h d template_name [] = None"
| "find_template h d template_name (t # ts) =
     (if get_Name h d t = template_name then Some t
      else find_template h d template_name ts)"

definition not_found_line :: "string \<Rightarrow> string \<Rightarrow> string" where
  "not_found_line template_name new_name =
     ''Template '' @ [CHR 0x27] @ template_name @ [CHR 0x27] @ '' not found for ''
       @ [CHR 0x27] @ new_name @ [CHR 0x27]"

text \<open>
  A step of the loop body returns \<open>Inr\<close> with the document and the console, or \<open>Inl\<close>
  with the exception and the console as it was when the exception was raised.
\<close>

definition assign_template ::
  "'d host \<Rightarrow> string \<Rightarrow> elem_id \<Rightarrow> string \<Rightarrow> 'd \<times> string list
     \<Rightarrow> exn \<times> string list + 'd \<times> string list" where
  "assign_template h template_name duplicated_view new_name st =
     (case st of (d, out) \<Rightarrow>
        (case find_template h d template_name (collect_Views h d) of
           Some new_template \<Rightarrow>
             (case set_ViewTemplateId h d duplicated_view new_template of
                Inl e \<Rightarrow> Inl (e, out)
              | Inr d' \<Rightarrow> Inr (d', out))
         | None \<Rightarrow> Inr (d, out @ [not_found_line template_name new_name])))"

subsection \<open>The loop body for a 3D view (lines 72 to 109)\<close>

definition process_view ::
  "'d host \<Rightarrow> string \<Rightarrow> string \<Rightarrow> elem_id \<Rightarrow> 'd \<times> string list
     \<Rightarrow> exn \<times> string list + 'd \<times> string list" where
  "process_view h pre template_name view st =
     (case st of (d, out) \<Rightarrow>
        (case Duplicate h d view of
           Inl e \<Rightarrow> Inl (e, out)
         | Inr (d1, duplicated_view) \<Rightarrow>
             (let old_name = get_Name h d1 view;
                  new_name = compute_new_name pre old_name
              in case rename_attempts h 20 duplicated_view old_name (d1, out) new_name of
                   (d2, out2, new_name') \<Rightarrow>
                     assign_template h template_name duplicated_view new_name' (d2, out2))))"

subsection \<open>The loop over the selection (lines 70 to 111)\<close>

fun for_views ::
  "'d host \<Rightarrow> string \<Rightarrow> string \<Rightarrow> view_obj list \<Rightarrow> 'd \<times> string list \<times> nat
     \<Rightarrow> exn \<times> string list + 'd \<times> string list \<times> nat" where
  "for_views h pre template_name [] (d, out, duplicated_count) =
     Inr (d, out, duplicated_count)"
| "for_views h pre template_name (view # rest) (d, out, duplicated_count) =
     (if isinstance_View3D view
      then (case process_view h pre template_name (Id view) (d, out) of
              Inl e \<Rightarrow> Inl e
            | Inr (d', out') \<Rightarrow>
                for_views h pre template_name rest (d', out', duplicated_count + 1))
      else for_views h pre template_name rest (d, out, duplicated_count))"

subsection \<open>\<^verbatim>\<open>main\<close> (lines 35 to 121)\<close>

text \<open>
  How a run ends: \<^verbatim>\<open>forms.alert(..., exitscript=True)\<close> leaves the script before the
  transaction exists; a \<^verbatim>\<open>KeyError\<close> of line 60 is caught by nothing; otherwise the
  transaction is committed or rolled back.
\<close>

datatype status = Exited | Uncaught exn | Committed | RolledBack

record 'd outcome =
  document :: 'd
  console :: "string list"
  alerts :: "string list"
  status :: status

text \<open>
  Modelled from the spec: the host's transaction, which is not in the repository
  (``an atomic unit of document mutation provided by the host, supporting commit and
  rollback''). \<^verbatim>\<open>Commit\<close> keeps the document the loop has reached, \<^verbatim>\<open>RollBack\<close>
  gives back the document as it was at \<^verbatim>\<open>Start\<close>. The console and the dialogs are not
  part of the document.
\<close>

definition alert_exitscript :: "'d \<Rightarrow> string \<Rightarrow> 'd outcome" where
  "alert_exitscript d msg =
     \<lparr>document = d, console = [], alerts = [msg], status = Exited\<rparr>"

definition run_transaction ::
  "'d host \<Rightarrow> 'd \<Rightarrow> view_obj list \<Rightarrow> string \<Rightarrow> string \<Rightarrow> 'd outcome" where
  "run_transaction h d sel_views pre template_name =
     (case for_views h pre template_name sel_views (d, [], 0) of
        Inr (d', out, duplicated_count) \<Rightarrow>
          \<lparr>document = d', console = out,
           alerts = [str_nat duplicated_count
                       @ '' views duplicated, renamed, and template applied.''],
           status = Committed\<rparr>
      | Inl (e, out) \<Rightarrow>
          \<lparr>document = d, console = out,
           alerts = [''An error occurred: '' @ e],
           status = RolledBack\<rparr>)"

text \<open>
  The two answers of the user: \<open>None\<close> when the dialog returns \<^verbatim>\<open>None\<close>. \<^verbatim>\<open>not x\<close>
  is true of \<^verbatim>\<open>None\<close>, of the empty list and of the empty string.
\<close>

definition main ::
  "'d host \<Rightarrow> 'd \<Rightarrow> view_obj list option \<Rightarrow> string option \<Rightarrow> 'd outcome" where
  "main h d sel_views system =
     (case sel_views of
        None \<Rightarrow> alert_exitscript d ''No Views Selected''
      | Some sel \<Rightarrow>
          if sel = [] then alert_exitscript d ''No Views Selected''
          else
            (case system of
               None \<Rightarrow> alert_exitscript d ''No system selected''
             | Some sys \<Rightarrow>
                 if sys = [] then alert_exitscript d ''No system selected''
                 else
                   (case map_of system_mapping sys of
                      None \<Rightarrow>
                        \<lparr>document = d, console = [], alerts = [],
                         status = Uncaught ''KeyError''\<rparr>
                    | Some entry \<Rightarrow>
                        run_transaction h d sel (prefix entry) (template entry))))"

subsection \<open>A small host, to run the script on\<close>

text \<open>
  Modelled from the spec: a host whose document is a list of views and that enforces
  ``name uniqueness'' (assigning a name another view has raises). It is used only to
  evaluate the script at concrete inputs. A duplicate gets an unused id and the name of
  its source followed by \<^verbatim>\<open> Copy 1\<close>; only a view template can be assigned as a
  template.
\<close>

record ref_view =
  ref_id :: elem_id
  ref_name :: string
  ref_is_template :: bool
  ref_template :: "elem_id option"

type_synonym ref_doc = "ref_view list"

definition ref_Duplicate :: "ref_doc \<Rightarrow> elem_id \<Rightarrow> exn + ref_doc \<times> elem_id" where
  "ref_Duplicate d i =
     (case find (\<lambda>v. ref_id v = i) d of
        None \<Rightarrow> Inl ''The view cannot be duplicated.''
      | Some v \<Rightarrow>
          (let j = Suc (fold max (map ref_id d) 0)
           in Inr (d @ [v\<lparr>ref_id := j, ref_name := ref_name v @ '' Copy 1''\<rparr>], j)))"

definition ref_get_Name :: "ref_doc \<Rightarrow> elem_id \<Rightarrow> string" where
  "ref_get_Name d i =
     (case find (\<lambda>v. ref_id v = i) d of None \<Rightarrow> [] | Some v \<Rightarrow> ref_name v)"

definition ref_set_Name :: "ref_doc \<Rightarrow> elem_id \<Rightarrow> string \<Rightarrow> exn + ref_doc" where
  "ref_set_Name d i n =
     (if list_ex (\<lambda>v. ref_id v \<noteq> i \<and> ref_name v = n) d
      then Inl ''Name must be unique.''
      else Inr (map (\<lambda>v. if ref_id v = i then v\<lparr>ref_name := n\<rparr> else v) d))"

definition ref_set_ViewTemplateId :: "ref_doc \<Rightarrow> elem_id \<Rightarrow> elem_id \<Rightarrow> exn + ref_doc" where
  "ref_set_ViewTemplateId d i t =
     (if list_ex (\<lambda>v. ref_id v = t \<and> ref_is_template v) d
      then Inr (map (\<lambda>v. if ref_id v = i then v\<lparr>ref_template := Some t\<rparr> else v) d)
      else Inl ''The view is not a view template.'')"

definition ref_host :: "ref_doc host" where
  "ref_host =
     \<lparr>Duplicate = ref_Duplicate, get_Name = ref_get_Name, set_Name = ref_set_Name,
      collect_Views = map ref_id, set_ViewTemplateId = ref_set_ViewTemplateId\<rparr>"

definition ref_view :: "elem_id \<Rightarrow> string \<Rightarrow> bool \<Rightarrow> ref_view" where
  "ref_view i n t = \<lparr>ref_id = i, ref_name = n, ref_is_template = t, ref_template = None\<rparr>"

text \<open>Two documents to run on: one where the computed name \<^verbatim>\<open>A_Y_Z\<close> is taken, and one
  where \<^verbatim>\<open>A_Y\<close> and \<^verbatim>\<open>A_Y\<close> followed by 1 to 19 asterisks are all taken.\<close>

definition taken_doc :: ref_doc where
  "taken_doc = [ref_view 1 ''X_Y_Z'' False, ref_view 2 ''A_Y_Z'' False]"

definition crowded_doc :: ref_doc where
  "crowded_doc =
     ref_view 1 ''X_Y'' False
       # map (\<lambda>k. ref_view (2 + k) (''A_Y'' @ replicate k (CHR ''*'')) False) [0..<20]"

text \<open>A document with view templates: the second differs from the template name of
  \<^verbatim>\<open>Architectural\<close> in case only, the third and the fourth have that name.\<close>

definition template_doc :: ref_doc where
  "template_doc =
     [ref_view 1 ''X_Y_Z'' False, ref_view 2 ''Architecture Glue'' True,
      ref_view 3 ''ARCHITECTURE GLUE'' True, ref_view 4 ''ARCHITECTURE GLUE'' True]"

text \<open>A document where a view that is not a view template has the template name of
  \<^verbatim>\<open>Architectural\<close>.\<close>

definition plain_doc :: ref_doc where
  "plain_doc = [ref_view 1 ''X_Y_Z'' False, ref_view 2 ''ARCHITECTURE GLUE'' False]"

subsection \<open>A host that records the calls that changed the document\<close>

text \<open>
  To say which elements a run has touched, the script is run on a host that keeps, beside
  the document of the host \<open>h\<close>, the list of the calls of the script that returned and
  changed the document: every call is passed to \<open>h\<close> as it is, and only noted.
\<close>

datatype call =
    DuplicateCall elem_id elem_id
  | SetName elem_id string
  | SetViewTemplateId elem_id elem_id

definition logged :: "'d host \<Rightarrow> ('d \<times> call list) host" where
  "logged h =
     \<lparr>Duplicate = (\<lambda>s view.
        case Duplicate h (fst s) view of
          Inl e \<Rightarrow> Inl e
        | Inr (d', i) \<Rightarrow> Inr ((d', snd s @ [DuplicateCall view i]), i)),
      get_Name = (\<lambda>s. get_Name h (fst s)),
      set_Name = (\<lambda>s i n.
        case set_Name h (fst s) i n of
          Inl e \<Rightarrow> Inl e
        | Inr d' \<Rightarrow> Inr (d', snd s @ [SetName i n])),
      collect_Views = (\<lambda>s. collect_Views h (fst s)),
      set_ViewTemplateId = (\<lambda>s i t.
        case set_ViewTemplateId h (fst s) i t of
          Inl e \<Rightarrow> Inl e
        | Inr d' \<Rightarrow> Inr (d', snd s @ [SetViewTemplateId i t]))\<rparr>"

text \<open>The views that were duplicated, the ids of their duplicates, and the elements whose
  name or template was assigned.\<close>

fun duplicated_sources :: "call list \<Rightarrow> elem_id list" where
  "duplicated_sources [] = []"
| "duplicated_sources (DuplicateCall view i # cs) = view # duplicated_sources cs"
| "duplicated_sources (SetName i n # cs) = duplicated_sources cs"
| "duplicated_sources (SetViewTemplateId i t # cs) = duplicated_sources cs"

fun duplicated_ids :: "call list \<Rightarrow> elem_id list" where
  "duplicated_ids [] = []"
| "duplicated_ids (DuplicateCall view i # cs) = i # duplicated_ids cs"
| "duplicated_ids (SetName i n # cs) = duplicated_ids cs"
| "duplicated_ids (SetViewTemplateId i t # cs) = duplicated_ids cs"

fun modified_ids :: "call list \<Rightarrow> elem_id list" where
  "modified_ids [] = []"
| "modified_ids (DuplicateCall view i # cs) = modified_ids cs"
| "modified_ids (SetName i n # cs) = i # modified_ids cs"
| "modified_ids (SetViewTemplateId i t # cs) = i # modified_ids cs"

section \<open>Properties\<close>

subsection \<open>The new name\<close>

lemma str_find_absent: "c \<notin> set s \<Longrightarrow> str_find s c = - 1"
  by (induction s) auto

lemma str_find_first: "c \<notin> set a \<Longrightarrow> str_find (a @ c # b) c = int (length a)"
proof (induction a)
  case Nil
  then show ?case by simp
next
  case (Cons x a)
  then have "str_find (a @ c # b) c = int (length a)" by simp
  with Cons.prems show ?case by (auto simp: Let_def)
qed

text \<open>
  C1. The new name is the prefix followed by what comes after the first underscore of
  the source name (\<open>a\<close> is the part before it, free of underscores, \<open>b\<close> the rest,
  which may hold more underscores), and the prefix followed by the whole source name
  when that has no underscore.
\<close>

theorem new_name_after_first_underscore:
  "(CHR ''_'' \<notin> set a \<longrightarrow> compute_new_name pre (a @ CHR ''_'' # b) = pre @ b) \<and>
   (CHR ''_'' \<notin> set old_name \<longrightarrow> compute_new_name pre old_name = pre @ old_name)"
proof (intro conjI impI)
  assume a: "CHR ''_'' \<notin> set a"
  have "str_find (a @ CHR ''_'' # b) (CHR ''_'') = int (length a)"
    using a by (rule str_find_first)
  moreover have "nat (int (length a) + 1) = Suc (length a)"
    by simp
  ultimately show "compute_new_name pre (a @ CHR ''_'' # b) = pre @ b"
    by (simp add: compute_new_name_def slice_from_def)
next
  assume "CHR ''_'' \<notin> set old_name"
  then have "str_find old_name (CHR ''_'') = - 1"
    by (rule str_find_absent)
  then show "compute_new_name pre old_name = pre @ old_name"
    by (simp add: compute_new_name_def)
qed

theorem new_name_after_first_underscore_witness:
  "compute_new_name ''A_'' ''X_Y_Z'' = ''A_Y_Z'' \<and>
   compute_new_name ''MD_'' ''ViewName'' = ''MD_ViewName''"
  using new_name_after_first_underscore
      [where a = "''X''" and b = "''Y_Z''" and pre = "''A_''" and old_name = "''ViewName''"]
    new_name_after_first_underscore
      [where a = "''X''" and b = "''Y_Z''" and pre = "''MD_''" and old_name = "''ViewName''"]
  by simp

subsection \<open>The retry of the name assignment\<close>

lemma rename_attempts_all_raise:
  "(\<And>k. k < n \<Longrightarrow> \<exists>e. set_Name h d dv (new_name @ replicate k (CHR ''*'')) = Inl e)
   \<Longrightarrow> rename_attempts h n dv old_name (d, out) new_name
         = (d, out, new_name @ replicate n (CHR ''*''))"
proof (induction n arbitrary: new_name)
  case 0
  show ?case by simp
next
  case (Suc n)
  from Suc.prems [of 0] obtain e where e: "set_Name h d dv new_name = Inl e"
    by auto
  have "rename_attempts h n dv old_name (d, out) (new_name @ ''*'')
          = (d, out, (new_name @ ''*'') @ replicate n (CHR ''*''))"
  proof (rule Suc.IH)
    fix k assume "k < n"
    then have "\<exists>e. set_Name h d dv (new_name @ replicate (Suc k) (CHR ''*'')) = Inl e"
      using Suc.prems [of "Suc k"] by simp
    then show "\<exists>e. set_Name h d dv ((new_name @ ''*'') @ replicate k (CHR ''*'')) = Inl e"
      by simp
  qed
  with e show ?case by simp
qed

lemma rename_attempts_returns_at:
  "j < n \<Longrightarrow>
   (\<And>k. k < j \<Longrightarrow> \<exists>e. set_Name h d dv (new_name @ replicate k (CHR ''*'')) = Inl e) \<Longrightarrow>
   set_Name h d dv (new_name @ replicate j (CHR ''*'')) = Inr d' \<Longrightarrow>
   rename_attempts h n dv old_name (d, out) new_name
     = (d', out @ [old_name @ '' -> '' @ new_name @ replicate j (CHR ''*'')],
        new_name @ replicate j (CHR ''*''))"
proof (induction n arbitrary: new_name j)
  case 0
  then show ?case by simp
next
  case (Suc n)
  show ?case
  proof (cases j)
    case 0
    with Suc.prems(3) show ?thesis by simp
  next
    case (Suc i)
    from Suc.prems(2) [of 0] Suc obtain e where e: "set_Name h d dv new_name = Inl e"
      by auto
    have "rename_attempts h n dv old_name (d, out) (new_name @ ''*'')
            = (d', out @ [old_name @ '' -> '' @ (new_name @ ''*'') @ replicate i (CHR ''*'')],
               (new_name @ ''*'') @ replicate i (CHR ''*''))"
    proof (rule Suc.IH)
      show "i < n" using Suc.prems(1) Suc by simp
    next
      fix k assume "k < i"
      then have "\<exists>e. set_Name h d dv (new_name @ replicate (Suc k) (CHR ''*'')) = Inl e"
        using Suc.prems(2) [of "Suc k"] Suc by simp
      then show "\<exists>e. set_Name h d dv ((new_name @ ''*'') @ replicate k (CHR ''*'')) = Inl e"
        by simp
    next
      show "set_Name h d dv ((new_name @ ''*'') @ replicate i (CHR ''*'')) = Inr d'"
        using Suc.prems(3) Suc by simp
    qed
    with e Suc show ?thesis by simp
  qed
qed

lemma process_view_after_Duplicate:
  "Duplicate h d view = Inr (d1, dv) \<Longrightarrow>
   rename_attempts h 20 dv (get_Name h d1 view) (d1, out)
       (compute_new_name pre (get_Name h d1 view)) = (d2, out2, new_name') \<Longrightarrow>
   process_view h pre template_name view (d, out)
     = assign_template h template_name dv new_name' (d2, out2)"
  by (simp add: process_view_def Let_def)

text \<open>
  C3. The name is assigned at most 20 times, each candidate being the one before with one
  asterisk appended: when the first \<open>j\<close> assignments raise (\<open>j < 20\<close>) and the next one
  returns, the name that is assigned, printed and kept is the computed name followed by
  exactly \<open>j\<close> asterisks. With \<open>j = 1\<close>: one collision, one asterisk.
\<close>

theorem rename_appends_one_asterisk_per_collision:
  assumes "j < 20"
    and "\<forall>k<j. \<exists>e. set_Name h db dv (new_name @ replicate k (CHR ''*'')) = Inl e"
    and "set_Name h db dv (new_name @ replicate j (CHR ''*'')) = Inr dc"
    and "Duplicate h d view = Inr (db, dv)"
    and "new_name = compute_new_name pre (get_Name h db view)"
  shows "rename_attempts h 20 dv old_name (db, out) new_name
           = (dc, out @ [old_name @ '' -> '' @ new_name @ replicate j (CHR ''*'')],
              new_name @ replicate j (CHR ''*'')) \<and>
         process_view h pre template_name view (d, out)
           = assign_template h template_name dv (new_name @ replicate j (CHR ''*''))
               (dc, out @ [get_Name h db view @ '' -> '' @ new_name @ replicate j (CHR ''*'')])"
proof
  have r: "rename_attempts h 20 dv old (db, out) new_name
             = (dc, out @ [old @ '' -> '' @ new_name @ replicate j (CHR ''*'')],
                new_name @ replicate j (CHR ''*''))" for old
    using assms(1,2,3) by (intro rename_attempts_returns_at) auto
  show "rename_attempts h 20 dv old_name (db, out) new_name
           = (dc, out @ [old_name @ '' -> '' @ new_name @ replicate j (CHR ''*'')],
              new_name @ replicate j (CHR ''*''))"
    by (rule r)
  show "process_view h pre template_name view (d, out)
           = assign_template h template_name dv (new_name @ replicate j (CHR ''*''))
               (dc, out @ [get_Name h db view @ '' -> '' @ new_name @ replicate j (CHR ''*'')])"
    using assms(4) r [of "get_Name h db view"] unfolding assms(5)
    by (rule process_view_after_Duplicate)
qed

theorem rename_appends_one_asterisk_per_collision_witness:
  "set_Name ref_host (taken_doc @ [ref_view 3 ''X_Y_Z Copy 1'' False]) 3 ''A_Y_Z''
     = Inl ''Name must be unique.'' \<and>
   rename_attempts ref_host 20 3 ''X_Y_Z''
       (taken_doc @ [ref_view 3 ''X_Y_Z Copy 1'' False], []) ''A_Y_Z''
     = (taken_doc @ [ref_view 3 ''A_Y_Z*'' False], [''X_Y_Z -> A_Y_Z*''], ''A_Y_Z*'') \<and>
   process_view ref_host ''A_'' ''ARCHITECTURE GLUE'' 1 (taken_doc, [])
     = assign_template ref_host ''ARCHITECTURE GLUE'' 3 ''A_Y_Z*''
         (taken_doc @ [ref_view 3 ''A_Y_Z*'' False], [''X_Y_Z -> A_Y_Z*''])"
proof -
  let ?d1 = "taken_doc @ [ref_view 3 ''X_Y_Z Copy 1'' False]"
  let ?d2 = "taken_doc @ [ref_view 3 ''A_Y_Z*'' False]"
  have a: "(1::nat) < 20" by simp
  have first: "set_Name ref_host ?d1 3 ''A_Y_Z'' = Inl ''Name must be unique.''"
    by (simp add: ref_host_def ref_set_Name_def ref_view_def taken_doc_def)
  then have b: "\<forall>k<1. \<exists>e. set_Name ref_host ?d1 3 (''A_Y_Z'' @ replicate k (CHR ''*'')) = Inl e"
    by simp
  have c: "set_Name ref_host ?d1 3 (''A_Y_Z'' @ replicate 1 (CHR ''*'')) = Inr ?d2"
    by (simp add: ref_host_def ref_set_Name_def ref_view_def taken_doc_def)
  have dup: "Duplicate ref_host taken_doc 1 = Inr (?d1, 3)"
    by (simp add: ref_host_def ref_Duplicate_def ref_view_def taken_doc_def)
  have n: "get_Name ref_host ?d1 1 = ''X_Y_Z''"
    by (simp add: ref_host_def ref_get_Name_def ref_view_def taken_doc_def)
  have e: "''A_Y_Z'' = compute_new_name ''A_'' (get_Name ref_host ?d1 1)"
    unfolding n by (simp add: compute_new_name_def slice_from_def)
  from rename_appends_one_asterisk_per_collision [OF a b c dup e,
      of "''X_Y_Z''" "[]" "''ARCHITECTURE GLUE''"] first n
  show ?thesis by simp
qed

text \<open>
  C4. When all 20 assignments raise, the retry ends with the document as it was after the
  duplication (so the duplicate has the name the host gave it) and with nothing printed.
  It raises nothing: the loop body goes on to the template step with the last candidate,
  and when that step returns, the loop body returns and the loop goes on to the rest of
  the selection with the counter increased.
\<close>

theorem exhausted_rename_is_tolerated:
  assumes "\<forall>k<20. \<exists>e. set_Name h db dv (new_name @ replicate k (CHR ''*'')) = Inl e"
    and "Duplicate h d view = Inr (db, dv)"
    and "new_name = compute_new_name pre (get_Name h db view)"
    and "assign_template h template_name dv (new_name @ replicate 20 (CHR ''*'')) (db, out)
           = Inr (dc, outc)"
  shows "rename_attempts h 20 dv old_name (db, out) new_name
           = (db, out, new_name @ replicate 20 (CHR ''*'')) \<and>
         process_view h pre template_name view (d, out) = Inr (dc, outc) \<and>
         for_views h pre template_name (View3D view # rest) (d, out, duplicated_count)
           = for_views h pre template_name rest (dc, outc, duplicated_count + 1)"
proof -
  have r: "rename_attempts h 20 dv old (db, out) new_name
             = (db, out, new_name @ replicate 20 (CHR ''*''))" for old
    using assms(1) by (intro rename_attempts_all_raise) auto
  have "process_view h pre template_name view (d, out)
          = assign_template h template_name dv (new_name @ replicate 20 (CHR ''*'')) (db, out)"
    using assms(2) r [of "get_Name h db view"] unfolding assms(3)
    by (rule process_view_after_Duplicate)
  with assms(4) have "process_view h pre template_name view (d, out) = Inr (dc, outc)"
    by simp
  with r [of old_name] show ?thesis by simp
qed

lemma crowded_doc_names_taken:
  assumes "k < 20"
  shows "set_Name ref_host (crowded_doc @ [ref_view 22 ''X_Y Copy 1'' False]) 22
           (''A_Y'' @ replicate k (CHR ''*'')) = Inl ''Name must be unique.''"
proof -
  let ?v = "ref_view (2 + k) (''A_Y'' @ replicate k (CHR ''*'')) False"
  have "?v \<in> set (crowded_doc @ [ref_view 22 ''X_Y Copy 1'' False])"
    using assms by (simp add: crowded_doc_def)
  moreover have "ref_id ?v \<noteq> 22 \<and> ref_name ?v = ''A_Y'' @ replicate k (CHR ''*'')"
    using assms by (simp add: ref_view_def)
  ultimately have "list_ex (\<lambda>v. ref_id v \<noteq> 22 \<and> ref_name v = ''A_Y'' @ replicate k (CHR ''*''))
      (crowded_doc @ [ref_view 22 ''X_Y Copy 1'' False])"
    unfolding list_ex_iff by blast
  then show ?thesis
    by (simp add: ref_host_def ref_set_Name_def)
qed

lemma crowded_doc_Duplicate:
  "Duplicate ref_host crowded_doc 1
     = Inr (crowded_doc @ [ref_view 22 ''X_Y Copy 1'' False], 22)"
  by (simp add: ref_host_def ref_Duplicate_def ref_view_def crowded_doc_def upt_rec)

lemma crowded_doc_source_name:
  "get_Name ref_host (crowded_doc @ [ref_view 22 ''X_Y Copy 1'' False]) 1 = ''X_Y''"
  by (simp add: ref_host_def ref_get_Name_def ref_view_def crowded_doc_def)

lemma crowded_doc_no_template:
  "find_template ref_host (crowded_doc @ [ref_view 22 ''X_Y Copy 1'' False]) ''ARCHITECTURE GLUE''
     (collect_Views ref_host (crowded_doc @ [ref_view 22 ''X_Y Copy 1'' False])) = None"
  by (simp add: ref_host_def ref_get_Name_def ref_view_def crowded_doc_def upt_rec)

theorem exhausted_rename_is_tolerated_witness:
  "rename_attempts ref_host 20 22 ''X_Y''
       (crowded_doc @ [ref_view 22 ''X_Y Copy 1'' False], []) ''A_Y''
     = (crowded_doc @ [ref_view 22 ''X_Y Copy 1'' False], [], ''A_Y********************'') \<and>
   process_view ref_host ''A_'' ''ARCHITECTURE GLUE'' 1 (crowded_doc, [])
     = Inr (crowded_doc @ [ref_view 22 ''X_Y Copy 1'' False],
            [not_found_line ''ARCHITECTURE GLUE'' ''A_Y********************'']) \<and>
   for_views ref_host ''A_'' ''ARCHITECTURE GLUE'' [View3D 1] (crowded_doc, [], 0)
     = Inr (crowded_doc @ [ref_view 22 ''X_Y Copy 1'' False],
            [not_found_line ''ARCHITECTURE GLUE'' ''A_Y********************''], 1)"
proof -
  let ?db = "crowded_doc @ [ref_view 22 ''X_Y Copy 1'' False]"
  have a: "\<forall>k<20. \<exists>e. set_Name ref_host ?db 22 (''A_Y'' @ replicate k (CHR ''*'')) = Inl e"
    using crowded_doc_names_taken by blast
  have e: "''A_Y'' = compute_new_name ''A_'' (get_Name ref_host ?db 1)"
    unfolding crowded_doc_source_name by (simp add: compute_new_name_def slice_from_def)
  have s: "''A_Y'' @ replicate 20 (CHR ''*'') = ''A_Y********************''"
    by (simp add: numeral_eq_Suc)
  have t: "assign_template ref_host ''ARCHITECTURE GLUE'' 22
      (''A_Y'' @ replicate 20 (CHR ''*'')) (?db, [])
        = Inr (?db, [] @ [not_found_line ''ARCHITECTURE GLUE''
            (''A_Y'' @ replicate 20 (CHR ''*''))])"
    using crowded_doc_no_template by (simp add: assign_template_def)
  from exhausted_rename_is_tolerated [OF a crowded_doc_Duplicate e t, of "''X_Y''" "[]" 0]
  show ?thesis unfolding s by simp
qed

subsection \<open>The template lookup\<close>

lemma find_template_first:
  "\<forall>u\<in>set before. get_Name h d u \<noteq> template_name \<Longrightarrow> get_Name h d t = template_name \<Longrightarrow>
   find_template h d template_name (before @ t # after) = Some t"
  by (induction before) auto

lemma find_template_SomeD:
  "find_template h d template_name vs = Some t \<Longrightarrow>
   \<exists>before after. vs = before @ t # after \<and> get_Name h d t = template_name \<and>
     (\<forall>u\<in>set before. get_Name h d u \<noteq> template_name)"
proof (induction vs)
  case Nil
  then show ?case by simp
next
  case (Cons v vs)
  show ?case
  proof (cases "get_Name h d v = template_name")
    case True
    with Cons.prems have "v = t" by simp
    with True have "v # vs = [] @ t # vs \<and> get_Name h d t = template_name \<and>
        (\<forall>u\<in>set []. get_Name h d u \<noteq> template_name)"
      by simp
    then show ?thesis by blast
  next
    case False
    with Cons.prems have "find_template h d template_name vs = Some t" by simp
    from Cons.IH [OF this] obtain before after where
      "vs = before @ t # after" "get_Name h d t = template_name"
      "\<forall>u\<in>set before. get_Name h d u \<noteq> template_name"
      by blast
    with False have "v # vs = (v # before) @ t # after \<and> get_Name h d t = template_name \<and>
        (\<forall>u\<in>set (v # before). get_Name h d u \<noteq> template_name)"
      by simp
    then show ?thesis by blast
  qed
qed

lemma find_template_None_iff:
  "find_template h d template_name vs = None \<longleftrightarrow>
   (\<forall>u\<in>set vs. get_Name h d u \<noteq> template_name)"
  by (induction vs) auto

text \<open>
  C5. The lookup returns a view exactly when it is the first view of the collector whose
  name equals the template name (equality of strings: the same characters, case
  included). When there is one, the step is the assignment of its id as the template of
  the duplicate. When there is none, the step prints the line, leaves the document as it
  is and returns, and the loop goes on to the rest of the selection with the view
  counted.
\<close>

theorem template_is_first_view_of_that_name:
  "(find_template h d template_name (collect_Views h d) = Some t \<longleftrightarrow>
      (\<exists>before after. collect_Views h d = before @ t # after \<and> get_Name h d t = template_name \<and>
         (\<forall>u\<in>set before. get_Name h d u \<noteq> template_name))) \<and>
   (find_template h d template_name (collect_Views h d) = Some t \<longrightarrow>
      assign_template h template_name dv new_name (d, out)
        = (case set_ViewTemplateId h d dv t of
             Inl e \<Rightarrow> Inl (e, out)
           | Inr d' \<Rightarrow> Inr (d', out))) \<and>
   ((\<forall>u\<in>set (collect_Views h d). get_Name h d u \<noteq> template_name) \<longrightarrow>
      assign_template h template_name dv new_name (d, out)
        = Inr (d, out @ [not_found_line template_name new_name])) \<and>
   (Duplicate h da view = Inr (db, dv) \<and>
    rename_attempts h 20 dv (get_Name h db view) (db, outa)
        (compute_new_name pre (get_Name h db view)) = (d, out, new_name) \<and>
    (\<forall>u\<in>set (collect_Views h d). get_Name h d u \<noteq> template_name) \<longrightarrow>
      for_views h pre template_name (View3D view # rest) (da, outa, duplicated_count)
        = for_views h pre template_name rest
            (d, out @ [not_found_line template_name new_name], duplicated_count + 1))"
proof (intro conjI impI)
  show "find_template h d template_name (collect_Views h d) = Some t \<longleftrightarrow>
      (\<exists>before after. collect_Views h d = before @ t # after \<and> get_Name h d t = template_name \<and>
         (\<forall>u\<in>set before. get_Name h d u \<noteq> template_name))"
    using find_template_SomeD [of h d template_name "collect_Views h d" t]
      find_template_first [of _ h d template_name t]
    by metis
next
  assume "find_template h d template_name (collect_Views h d) = Some t"
  then show "assign_template h template_name dv new_name (d, out)
        = (case set_ViewTemplateId h d dv t of
             Inl e \<Rightarrow> Inl (e, out)
           | Inr d' \<Rightarrow> Inr (d', out))"
    by (simp add: assign_template_def)
next
  assume "\<forall>u\<in>set (collect_Views h d). get_Name h d u \<noteq> template_name"
  then have "find_template h d template_name (collect_Views h d) = None"
    by (simp add: find_template_None_iff)
  then show "assign_template h template_name dv new_name (d, out)
        = Inr (d, out @ [not_found_line template_name new_name])"
    by (simp add: assign_template_def)
next
  assume a: "Duplicate h da view = Inr (db, dv) \<and>
    rename_attempts h 20 dv (get_Name h db view) (db, outa)
        (compute_new_name pre (get_Name h db view)) = (d, out, new_name) \<and>
    (\<forall>u\<in>set (collect_Views h d). get_Name h d u \<noteq> template_name)"
  then have "find_template h d template_name (collect_Views h d) = None"
    by (simp add: find_template_None_iff)
  then have "assign_template h template_name dv new_name (d, out)
        = Inr (d, out @ [not_found_line template_name new_name])"
    by (simp add: assign_template_def)
  moreover have "process_view h pre template_name view (da, outa)
        = assign_template h template_name dv new_name (d, out)"
    using a by (intro process_view_after_Duplicate) auto
  ultimately show "for_views h pre template_name (View3D view # rest) (da, outa, duplicated_count)
        = for_views h pre template_name rest
            (d, out @ [not_found_line template_name new_name], duplicated_count + 1)"
    by simp
qed

theorem template_is_first_view_of_that_name_witness:
  "find_template ref_host (template_doc @ [ref_view 5 ''A_Y_Z'' False]) ''ARCHITECTURE GLUE''
       (collect_Views ref_host (template_doc @ [ref_view 5 ''A_Y_Z'' False])) = Some 3 \<and>
   assign_template ref_host ''ARCHITECTURE GLUE'' 5 ''A_Y_Z''
       (template_doc @ [ref_view 5 ''A_Y_Z'' False], [])
     = Inr (template_doc @ [(ref_view 5 ''A_Y_Z'' False)\<lparr>ref_template := Some 3\<rparr>], []) \<and>
   for_views ref_host ''A_'' ''ARCHITECTURE GLUE'' [View3D 1] (taken_doc, [], 0)
     = Inr (taken_doc @ [ref_view 3 ''A_Y_Z*'' False],
            [''X_Y_Z -> A_Y_Z*'', not_found_line ''ARCHITECTURE GLUE'' ''A_Y_Z*''], 1)"
proof -
  let ?D = "template_doc @ [ref_view 5 ''A_Y_Z'' False]"
  let ?tn = "''ARCHITECTURE GLUE''"
  note found = template_is_first_view_of_that_name
    [where h = ref_host and d = ?D and template_name = ?tn and t = 3 and dv = 5
       and new_name = "''A_Y_Z''" and out = "[]"]
  have "collect_Views ref_host ?D = [1, 2] @ 3 # [4, 5] \<and> get_Name ref_host ?D 3 = ?tn \<and>
      (\<forall>u\<in>set [1, 2]. get_Name ref_host ?D u \<noteq> ?tn)"
    by (simp add: ref_host_def ref_get_Name_def ref_view_def template_doc_def)
  then have "\<exists>before after. collect_Views ref_host ?D = before @ 3 # after \<and>
      get_Name ref_host ?D 3 = ?tn \<and> (\<forall>u\<in>set before. get_Name ref_host ?D u \<noteq> ?tn)"
    by blast
  with found [THEN conjunct1]
  have f: "find_template ref_host ?D ?tn (collect_Views ref_host ?D) = Some 3"
    by simp
  with found [THEN conjunct2, THEN conjunct1]
  have "assign_template ref_host ?tn 5 ''A_Y_Z'' (?D, [])
      = (case set_ViewTemplateId ref_host ?D 5 3 of
           Inl e \<Rightarrow> Inl (e, [])
         | Inr d' \<Rightarrow> Inr (d', []))"
    by simp
  then have g: "assign_template ref_host ?tn 5 ''A_Y_Z'' (?D, [])
      = Inr (template_doc @ [(ref_view 5 ''A_Y_Z'' False)\<lparr>ref_template := Some 3\<rparr>], [])"
    by (simp add: ref_host_def ref_set_ViewTemplateId_def ref_view_def template_doc_def)
  let ?d1 = "taken_doc @ [ref_view 3 ''X_Y_Z Copy 1'' False]"
  let ?d2 = "taken_doc @ [ref_view 3 ''A_Y_Z*'' False]"
  have dup: "Duplicate ref_host taken_doc 1 = Inr (?d1, 3)"
    by (simp add: ref_host_def ref_Duplicate_def ref_view_def taken_doc_def)
  have n: "get_Name ref_host ?d1 1 = ''X_Y_Z''"
    by (simp add: ref_host_def ref_get_Name_def ref_view_def taken_doc_def)
  have r: "rename_attempts ref_host 20 3 (get_Name ref_host ?d1 1) (?d1, [])
      (compute_new_name ''A_'' (get_Name ref_host ?d1 1)) = (?d2, [''X_Y_Z -> A_Y_Z*''], ''A_Y_Z*'')"
    unfolding n
    by (simp add: compute_new_name_def slice_from_def numeral_eq_Suc
        ref_host_def ref_set_Name_def ref_view_def taken_doc_def)
  have none: "\<forall>u\<in>set (collect_Views ref_host ?d2). get_Name ref_host ?d2 u \<noteq> ?tn"
    by (simp add: ref_host_def ref_get_Name_def ref_view_def taken_doc_def)
  from template_is_first_view_of_that_name
    [where h = ref_host and d = ?d2 and template_name = ?tn and da = taken_doc and view = 1
       and db = ?d1 and dv = 3 and outa = "[]" and out = "[''X_Y_Z -> A_Y_Z*'']"
       and new_name = "''A_Y_Z*''" and pre = "''A_''" and rest = "[]" and duplicated_count = 0,
     THEN conjunct2, THEN conjunct2, THEN conjunct2]
    dup r none
  have "for_views ref_host ''A_'' ?tn [View3D 1] (taken_doc, [], 0)
      = Inr (?d2, [''X_Y_Z -> A_Y_Z*'', not_found_line ?tn ''A_Y_Z*''], 1)"
    by simp
  with f g show ?thesis by simp
qed

subsection \<open>The two dialogs\<close>

text \<open>
  C6. With no views selected (the dialog returns \<^verbatim>\<open>None\<close> or an empty list), and with
  views selected but no discipline, the script shows the alert and exits: the document
  is the one it started with, nothing is printed, and no transaction was started.
\<close>

theorem no_selection_exits_before_transaction:
  "main h d None system
     = \<lparr>document = d, console = [], alerts = [''No Views Selected''], status = Exited\<rparr> \<and>
   main h d (Some []) system
     = \<lparr>document = d, console = [], alerts = [''No Views Selected''], status = Exited\<rparr> \<and>
   main h d (Some (v # vs)) None
     = \<lparr>document = d, console = [], alerts = [''No system selected''], status = Exited\<rparr> \<and>
   main h d (Some (v # vs)) (Some [])
     = \<lparr>document = d, console = [], alerts = [''No system selected''], status = Exited\<rparr>"
  by (simp add: main_def alert_exitscript_def)

subsection \<open>The discipline table\<close>

lemma str_nat_0: "str_nat 0 = ''0''"
  by code_simp

text \<open>
  C8. The table has exactly five entries, one for each label offered in the dialog, in
  the same order; the labels are distinct, so each has one prefix and one template name.
  Looking a label up reads the table only: for every host and every document, also one
  with no view template at all, a run on a selection with no 3D view commits with the
  document unchanged.
\<close>

theorem system_mapping_five_entries:
  "length system_mapping = 5 \<and> map fst system_mapping = options \<and> distinct options \<and>
   map (map_of system_mapping) options
     = [Some \<lparr>prefix = ''A_'', template = ''ARCHITECTURE GLUE''\<rparr>,
        Some \<lparr>prefix = ''MD_'', template = ''MECHANICAL GLUE''\<rparr>,
        Some \<lparr>prefix = ''PL_'', template = ''PLUMBING GLUE''\<rparr>,
        Some \<lparr>prefix = ''FP_'', template = ''FIRE PROTECTION GLUE''\<rparr>,
        Some \<lparr>prefix = ''EE_'', template = ''ELECTRICAL GLUE''\<rparr>] \<and>
   map (\<lambda>system. main h d (Some [OtherView i]) (Some system)) options
     = replicate 5
         \<lparr>document = d, console = [],
          alerts = [''0 views duplicated, renamed, and template applied.''],
          status = Committed\<rparr>"
  by (simp add: system_mapping_def options_def main_def run_transaction_def str_nat_0
      numeral_eq_Suc)

subsection \<open>The loop over the selection\<close>

lemma for_views_filter:
  "for_views h pre template_name (filter isinstance_View3D sel) (d, out, n)
     = for_views h pre template_name sel (d, out, n)"
proof (induction sel arbitrary: d out n)
  case Nil
  show ?case by simp
next
  case (Cons view sel)
  show ?case
  proof (cases view)
    case (View3D i)
    then show ?thesis
      using Cons.IH by (simp split: sum.splits prod.splits)
  next
    case (OtherView i)
    then show ?thesis
      using Cons.IH by simp
  qed
qed

lemma for_views_count:
  "for_views h pre template_name sel (d, out, n) = Inr (d', out', n') \<Longrightarrow>
   n' = n + length (filter isinstance_View3D sel)"
proof (induction sel arbitrary: d out n)
  case Nil
  then show ?case by simp
next
  case (Cons view sel)
  show ?case
  proof (cases view)
    case (View3D i)
    with Cons.prems obtain db outb where
      "for_views h pre template_name sel (db, outb, n + 1) = Inr (d', out', n')"
      by (auto split: sum.splits prod.splits)
    from Cons.IH [OF this] View3D show ?thesis by simp
  next
    case (OtherView i)
    with Cons.prems have "for_views h pre template_name sel (d, out, n) = Inr (d', out', n')"
      by simp
    from Cons.IH [OF this] OtherView show ?thesis by simp
  qed
qed

lemma run_transaction_Committed:
  assumes "status (run_transaction h d sel pre template_name) = Committed"
  shows "alerts (run_transaction h d sel pre template_name)
           = [str_nat (length (filter isinstance_View3D sel))
                @ '' views duplicated, renamed, and template applied.'']"
proof (cases "for_views h pre template_name sel (d, [], 0)")
  case (Inl a)
  with assms show ?thesis
    by (simp add: run_transaction_def split: prod.splits)
next
  case (Inr b)
  then obtain d' out' n' where b: "for_views h pre template_name sel (d, [], 0) = Inr (d', out', n')"
    by (cases b) auto
  from for_views_count [OF this] have "n' = length (filter isinstance_View3D sel)"
    by simp
  with b show ?thesis
    by (simp add: run_transaction_def)
qed

lemma main_Committed:
  "status (main h d (Some sel) system) = Committed \<Longrightarrow>
   \<exists>sys entry. system = Some sys \<and> map_of system_mapping sys = Some entry \<and>
     main h d (Some sel) system = run_transaction h d sel (prefix entry) (template entry)"
  by (auto simp: main_def alert_exitscript_def split: option.splits if_splits)




subsection \<open>Which elements a run touches\<close>

lemma logged_Duplicate:
  "Duplicate (logged h) (d, log) view =
     (case Duplicate h d view of
        Inl e \<Rightarrow> Inl e
      | Inr (d', i) \<Rightarrow> Inr ((d', log @ [DuplicateCall view i]), i))"
  by (simp add: logged_def split: sum.splits prod.splits)

lemma logged_set_Name:
  "set_Name (logged h) (d, log) i n =
     (case set_Name h d i n of
        Inl e \<Rightarrow> Inl e
      | Inr d' \<Rightarrow> Inr (d', log @ [SetName i n]))"
  by (simp add: logged_def split: sum.splits prod.splits)

lemma logged_set_ViewTemplateId:
  "set_ViewTemplateId (logged h) (d, log) i t =
     (case set_ViewTemplateId h d i t of
        Inl e \<Rightarrow> Inl e
      | Inr d' \<Rightarrow> Inr (d', log @ [SetViewTemplateId i t]))"
  by (simp add: logged_def split: sum.splits prod.splits)

lemma logged_get_Name: "get_Name (logged h) (d, log) = get_Name h d"
  by (simp add: logged_def)

lemma logged_collect_Views: "collect_Views (logged h) (d, log) = collect_Views h d"
  by (simp add: logged_def)

lemmas logged_simps =
  logged_Duplicate logged_set_Name logged_set_ViewTemplateId logged_get_Name
  logged_collect_Views

lemma duplicated_sources_append:
  "duplicated_sources (xs @ ys) = duplicated_sources xs @ duplicated_sources ys"
  by (induction xs rule: duplicated_sources.induct) auto

lemma duplicated_ids_append:
  "duplicated_ids (xs @ ys) = duplicated_ids xs @ duplicated_ids ys"
  by (induction xs rule: duplicated_ids.induct) auto

lemma modified_ids_append:
  "modified_ids (xs @ ys) = modified_ids xs @ modified_ids ys"
  by (induction xs rule: modified_ids.induct) auto

text \<open>The run on the recording host is the run on \<open>h\<close>, with the list beside it.\<close>

lemma logged_rename_attempts:
  "\<exists>new. rename_attempts (logged h) n dv old_name ((d, log), out) new_name
           = (case rename_attempts h n dv old_name (d, out) new_name of
                (d', out', name') \<Rightarrow> ((d', log @ new), out', name')) \<and>
         duplicated_sources new = [] \<and> duplicated_ids new = [] \<and>
         set (modified_ids new) \<subseteq> {dv}"
proof (induction n arbitrary: new_name)
  case 0
  have "rename_attempts (logged h) 0 dv old_name ((d, log), out) new_name
           = (case rename_attempts h 0 dv old_name (d, out) new_name of
                (d', out', name') \<Rightarrow> ((d', log @ []), out', name')) \<and>
         duplicated_sources [] = [] \<and> duplicated_ids [] = [] \<and>
         set (modified_ids []) \<subseteq> {dv}"
    by simp
  then show ?case by blast
next
  case (Suc n)
  show ?case
  proof (cases "set_Name h d dv new_name")
    case (Inl e)
    with Suc.IH [of "new_name @ ''*''"] show ?thesis
      by (simp add: logged_simps)
  next
    case (Inr d')
    then have "rename_attempts (logged h) (Suc n) dv old_name ((d, log), out) new_name
           = (case rename_attempts h (Suc n) dv old_name (d, out) new_name of
                (d', out', name') \<Rightarrow> ((d', log @ [SetName dv new_name]), out', name')) \<and>
         duplicated_sources [SetName dv new_name] = [] \<and>
         duplicated_ids [SetName dv new_name] = [] \<and>
         set (modified_ids [SetName dv new_name]) \<subseteq> {dv}"
      by (simp add: logged_simps)
    then show ?thesis by blast
  qed
qed

lemma logged_find_template:
  "find_template (logged h) (d, log) template_name vs = find_template h d template_name vs"
  by (induction vs) (auto simp: logged_simps)

lemma logged_assign_template:
  "\<exists>new. assign_template (logged h) template_name dv new_name ((d, log), out)
           = (case assign_template h template_name dv new_name (d, out) of
                Inl e \<Rightarrow> Inl e
              | Inr (d', out') \<Rightarrow> Inr ((d', log @ new), out')) \<and>
         duplicated_sources new = [] \<and> duplicated_ids new = [] \<and>
         set (modified_ids new) \<subseteq> {dv}"
proof (cases "find_template h d template_name (collect_Views h d)")
  case None
  then have "assign_template (logged h) template_name dv new_name ((d, log), out)
           = (case assign_template h template_name dv new_name (d, out) of
                Inl e \<Rightarrow> Inl e
              | Inr (d', out') \<Rightarrow> Inr ((d', log @ []), out')) \<and>
         duplicated_sources [] = [] \<and> duplicated_ids [] = [] \<and>
         set (modified_ids []) \<subseteq> {dv}"
    by (simp add: assign_template_def logged_simps logged_find_template)
  then show ?thesis by blast
next
  case (Some t)
  then have "assign_template (logged h) template_name dv new_name ((d, log), out)
           = (case assign_template h template_name dv new_name (d, out) of
                Inl e \<Rightarrow> Inl e
              | Inr (d', out') \<Rightarrow> Inr ((d', log @ [SetViewTemplateId dv t]), out')) \<and>
         duplicated_sources [SetViewTemplateId dv t] = [] \<and>
         duplicated_ids [SetViewTemplateId dv t] = [] \<and>
         set (modified_ids [SetViewTemplateId dv t]) \<subseteq> {dv}"
    by (simp add: assign_template_def logged_simps logged_find_template split: sum.splits)
  then show ?thesis by blast
qed

lemma logged_process_view:
  "\<exists>new. process_view (logged h) pre template_name view ((d, log), out)
           = (case process_view h pre template_name view (d, out) of
                Inl e \<Rightarrow> Inl e
              | Inr (d', out') \<Rightarrow> Inr ((d', log @ new), out')) \<and>
         set (duplicated_sources new) \<subseteq> {view} \<and>
         set (modified_ids new) \<subseteq> set (duplicated_ids new)"
proof (cases "Duplicate h d view")
  case (Inl e)
  then have "process_view (logged h) pre template_name view ((d, log), out)
           = (case process_view h pre template_name view (d, out) of
                Inl e \<Rightarrow> Inl e
              | Inr (d', out') \<Rightarrow> Inr ((d', log @ []), out')) \<and>
         set (duplicated_sources []) \<subseteq> {view} \<and>
         set (modified_ids []) \<subseteq> set (duplicated_ids [])"
    by (simp add: process_view_def logged_simps)
  then show ?thesis by blast
next
  case (Inr p)
  then obtain db dv where dup: "Duplicate h d view = Inr (db, dv)"
    by (cases p) auto
  let ?log = "log @ [DuplicateCall view dv]"
  let ?old = "get_Name h db view"
  let ?name = "compute_new_name pre ?old"
  obtain dc outc name' where r: "rename_attempts h 20 dv ?old (db, out) ?name = (dc, outc, name')"
    by (cases "rename_attempts h 20 dv ?old (db, out) ?name") auto
  from logged_rename_attempts [of h 20 dv ?old db ?log out ?name] r
  obtain new1 where
    r1: "rename_attempts (logged h) 20 dv ?old ((db, ?log), out) ?name
           = ((dc, ?log @ new1), outc, name')"
    and n1: "duplicated_sources new1 = []" "duplicated_ids new1 = []"
      "set (modified_ids new1) \<subseteq> {dv}"
    by auto
  from logged_assign_template [of h template_name dv name' dc "?log @ new1" outc]
  obtain new2 where
    a2: "assign_template (logged h) template_name dv name' ((dc, ?log @ new1), outc)
           = (case assign_template h template_name dv name' (dc, outc) of
                Inl e \<Rightarrow> Inl e
              | Inr (d', out') \<Rightarrow> Inr ((d', (?log @ new1) @ new2), out'))"
    and n2: "duplicated_sources new2 = []" "duplicated_ids new2 = []"
      "set (modified_ids new2) \<subseteq> {dv}"
    by auto
  have p: "process_view h pre template_name view (d, out)
             = assign_template h template_name dv name' (dc, outc)"
    using dup r by (rule process_view_after_Duplicate)
  have ldup: "Duplicate (logged h) (d, log) view = Inr ((db, ?log), dv)"
    using dup by (simp add: logged_simps)
  have "rename_attempts (logged h) 20 dv (get_Name (logged h) (db, ?log) view) ((db, ?log), out)
          (compute_new_name pre (get_Name (logged h) (db, ?log) view))
            = ((dc, ?log @ new1), outc, name')"
    using r1 by (simp add: logged_simps)
  with ldup have lp: "process_view (logged h) pre template_name view ((d, log), out)
             = assign_template (logged h) template_name dv name' ((dc, ?log @ new1), outc)"
    by (rule process_view_after_Duplicate)
  let ?new = "DuplicateCall view dv # new1 @ new2"
  have "process_view (logged h) pre template_name view ((d, log), out)
           = (case process_view h pre template_name view (d, out) of
                Inl e \<Rightarrow> Inl e
              | Inr (d', out') \<Rightarrow> Inr ((d', log @ ?new), out'))"
    unfolding lp p a2 by (simp split: sum.splits prod.splits)
  moreover have "set (duplicated_sources ?new) \<subseteq> {view}"
    using n1 n2 by (simp add: duplicated_sources_append)
  moreover have "set (modified_ids ?new) \<subseteq> set (duplicated_ids ?new)"
    using n1 n2 by (auto simp: modified_ids_append duplicated_ids_append)
  ultimately show ?thesis by blast
qed

lemma logged_for_views:
  "\<exists>new. for_views (logged h) pre template_name sel ((d, log), out, n)
           = (case for_views h pre template_name sel (d, out, n) of
                Inl e \<Rightarrow> Inl e
              | Inr (d', out', n') \<Rightarrow> Inr ((d', log @ new), out', n')) \<and>
         set (duplicated_sources new) \<subseteq> Id ` {v \<in> set sel. isinstance_View3D v} \<and>
         set (modified_ids new) \<subseteq> set (duplicated_ids new)"
proof (induction sel arbitrary: d log out n)
  case Nil
  have "for_views (logged h) pre template_name [] ((d, log), out, n)
           = (case for_views h pre template_name [] (d, out, n) of
                Inl e \<Rightarrow> Inl e
              | Inr (d', out', n') \<Rightarrow> Inr ((d', log @ []), out', n')) \<and>
         set (duplicated_sources []) \<subseteq> Id ` {v \<in> set []. isinstance_View3D v} \<and>
         set (modified_ids []) \<subseteq> set (duplicated_ids [])"
    by simp
  then show ?case by blast
next
  case (Cons view sel)
  show ?case
  proof (cases view)
    case (OtherView i)
    from Cons.IH [of d log out n] obtain new where
      "for_views (logged h) pre template_name sel ((d, log), out, n)
           = (case for_views h pre template_name sel (d, out, n) of
                Inl e \<Rightarrow> Inl e
              | Inr (d', out', n') \<Rightarrow> Inr ((d', log @ new), out', n'))"
      "set (duplicated_sources new) \<subseteq> Id ` {v \<in> set sel. isinstance_View3D v}"
      "set (modified_ids new) \<subseteq> set (duplicated_ids new)"
      by blast
    with OtherView have "for_views (logged h) pre template_name (view # sel) ((d, log), out, n)
           = (case for_views h pre template_name (view # sel) (d, out, n) of
                Inl e \<Rightarrow> Inl e
              | Inr (d', out', n') \<Rightarrow> Inr ((d', log @ new), out', n')) \<and>
         set (duplicated_sources new) \<subseteq> Id ` {v \<in> set (view # sel). isinstance_View3D v} \<and>
         set (modified_ids new) \<subseteq> set (duplicated_ids new)"
      by auto
    then show ?thesis by blast
  next
    case (View3D i)
    from logged_process_view [of h pre template_name i d log out] obtain new1 where
      p: "process_view (logged h) pre template_name i ((d, log), out)
           = (case process_view h pre template_name i (d, out) of
                Inl e \<Rightarrow> Inl e
              | Inr (d', out') \<Rightarrow> Inr ((d', log @ new1), out'))"
      and n1: "set (duplicated_sources new1) \<subseteq> {i}"
        "set (modified_ids new1) \<subseteq> set (duplicated_ids new1)"
      by blast
    show ?thesis
    proof (cases "process_view h pre template_name i (d, out)")
      case (Inl e)
      with p View3D have "for_views (logged h) pre template_name (view # sel) ((d, log), out, n)
           = (case for_views h pre template_name (view # sel) (d, out, n) of
                Inl e \<Rightarrow> Inl e
              | Inr (d', out', n') \<Rightarrow> Inr ((d', log @ []), out', n')) \<and>
         set (duplicated_sources []) \<subseteq> Id ` {v \<in> set (view # sel). isinstance_View3D v} \<and>
         set (modified_ids []) \<subseteq> set (duplicated_ids [])"
        by simp
      then show ?thesis by blast
    next
      case (Inr q)
      then obtain db outb where q: "process_view h pre template_name i (d, out) = Inr (db, outb)"
        by (cases q) auto
      from Cons.IH [of db "log @ new1" outb "n + 1"] obtain new2 where
        f: "for_views (logged h) pre template_name sel ((db, log @ new1), outb, n + 1)
           = (case for_views h pre template_name sel (db, outb, n + 1) of
                Inl e \<Rightarrow> Inl e
              | Inr (d', out', n') \<Rightarrow> Inr ((d', (log @ new1) @ new2), out', n'))"
        and n2: "set (duplicated_sources new2) \<subseteq> Id ` {v \<in> set sel. isinstance_View3D v}"
          "set (modified_ids new2) \<subseteq> set (duplicated_ids new2)"
        by blast
      have "for_views (logged h) pre template_name (view # sel) ((d, log), out, n)
           = (case for_views h pre template_name (view # sel) (d, out, n) of
                Inl e \<Rightarrow> Inl e
              | Inr (d', out', n') \<Rightarrow> Inr ((d', log @ (new1 @ new2)), out', n'))"
        using View3D p q f by (simp split: sum.splits prod.splits)
      moreover have "set (duplicated_sources (new1 @ new2))
          \<subseteq> Id ` {v \<in> set (view # sel). isinstance_View3D v}"
      proof -
        have "i \<in> Id ` {v \<in> set (view # sel). isinstance_View3D v}"
          using View3D by force
        moreover have "Id ` {v \<in> set sel. isinstance_View3D v}
            \<subseteq> Id ` {v \<in> set (view # sel). isinstance_View3D v}"
          by auto
        ultimately show ?thesis
          using n1(1) n2(1) by (auto simp: duplicated_sources_append)
      qed
      moreover have "set (modified_ids (new1 @ new2)) \<subseteq> set (duplicated_ids (new1 @ new2))"
        using n1(2) n2(2) by (auto simp: modified_ids_append duplicated_ids_append)
      ultimately show ?thesis by blast
    qed
  qed
qed

lemma logged_run_transaction:
  "\<exists>new. run_transaction (logged h) (d, log) sel pre template_name
           = (let r = run_transaction h d sel pre template_name
              in \<lparr>document = (document r, log @ new), console = console r,
                  alerts = alerts r, status = status r\<rparr>) \<and>
         set (duplicated_sources new) \<subseteq> Id ` {v \<in> set sel. isinstance_View3D v} \<and>
         set (modified_ids new) \<subseteq> set (duplicated_ids new)"
proof -
  from logged_for_views [of h pre template_name sel d log "[]" 0] obtain new where
    f: "for_views (logged h) pre template_name sel ((d, log), [], 0)
           = (case for_views h pre template_name sel (d, [], 0) of
                Inl e \<Rightarrow> Inl e
              | Inr (d', out', n') \<Rightarrow> Inr ((d', log @ new), out', n'))"
    and n: "set (duplicated_sources new) \<subseteq> Id ` {v \<in> set sel. isinstance_View3D v}"
      "set (modified_ids new) \<subseteq> set (duplicated_ids new)"
    by blast
  show ?thesis
  proof (cases "for_views h pre template_name sel (d, [], 0)")
    case (Inl a)
    with f have "run_transaction (logged h) (d, log) sel pre template_name
           = (let r = run_transaction h d sel pre template_name
              in \<lparr>document = (document r, log @ []), console = console r,
                  alerts = alerts r, status = status r\<rparr>) \<and>
         set (duplicated_sources []) \<subseteq> Id ` {v \<in> set sel. isinstance_View3D v} \<and>
         set (modified_ids []) \<subseteq> set (duplicated_ids [])"
      by (simp add: run_transaction_def split: prod.splits)
    then show ?thesis by blast
  next
    case (Inr b)
    with f have "run_transaction (logged h) (d, log) sel pre template_name
           = (let r = run_transaction h d sel pre template_name
              in \<lparr>document = (document r, log @ new), console = console r,
                  alerts = alerts r, status = status r\<rparr>)"
      by (simp add: run_transaction_def split: prod.splits)
    with n show ?thesis by blast
  qed
qed

lemma logged_main:
  "\<exists>new. main (logged h) (d, log) (Some sel) system
           = (let r = main h d (Some sel) system
              in \<lparr>document = (document r, log @ new), console = console r,
                  alerts = alerts r, status = status r\<rparr>) \<and>
         set (duplicated_sources new) \<subseteq> Id ` {v \<in> set sel. isinstance_View3D v} \<and>
         set (modified_ids new) \<subseteq> set (duplicated_ids new)"
proof (cases "\<exists>sys entry. sel \<noteq> [] \<and> system = Some sys \<and> sys \<noteq> [] \<and>
    map_of system_mapping sys = Some entry")
  case True
  then obtain sys entry where
    c: "sel \<noteq> []" "system = Some sys" "sys \<noteq> []" "map_of system_mapping sys = Some entry"
    by blast
  then have "main h d (Some sel) system
      = run_transaction h d sel (prefix entry) (template entry)"
    and "main (logged h) (d, log) (Some sel) system
      = run_transaction (logged h) (d, log) sel (prefix entry) (template entry)"
    by (simp_all add: main_def)
  then show ?thesis
    using logged_run_transaction [of h d log sel "prefix entry" "template entry"] by simp
next
  case False
  then have "main (logged h) (d, log) (Some sel) system
           = (let r = main h d (Some sel) system
              in \<lparr>document = (document r, log @ []), console = console r,
                  alerts = alerts r, status = status r\<rparr>) \<and>
         set (duplicated_sources []) \<subseteq> Id ` {v \<in> set sel. isinstance_View3D v} \<and>
         set (modified_ids []) \<subseteq> set (duplicated_ids [])"
    by (auto simp: main_def alert_exitscript_def split: option.splits)
  then show ?thesis by blast
qed

text \<open>
  C9. In every run, the only views passed to \<^verbatim>\<open>Duplicate\<close> are the selected 3D views,
  and every element whose name or template the script has assigned is one that
  \<^verbatim>\<open>Duplicate\<close> returned in that run. So a selected view whose id is not the id of a
  duplicate (the host gives a duplicate an id of its own) has had neither its name nor its
  template assigned. The recording changes nothing: the document is the one the run on
  \<open>h\<close> ends with.
\<close>

theorem only_duplicates_renamed_and_templated:
  assumes "document (main (logged h) (d, []) (Some sel) system) = (d', log)"
  shows "d' = document (main h d (Some sel) system) \<and>
         set (duplicated_sources log) \<subseteq> Id ` {v \<in> set sel. isinstance_View3D v} \<and>
         set (modified_ids log) \<subseteq> set (duplicated_ids log) \<and>
         (\<forall>v\<in>set sel. Id v \<notin> set (duplicated_ids log) \<longrightarrow> Id v \<notin> set (modified_ids log))"
proof -
  from logged_main [of h d "[]" sel system] obtain new where
    m: "main (logged h) (d, []) (Some sel) system
           = (let r = main h d (Some sel) system
              in \<lparr>document = (document r, [] @ new), console = console r,
                  alerts = alerts r, status = status r\<rparr>)"
    and n: "set (duplicated_sources new) \<subseteq> Id ` {v \<in> set sel. isinstance_View3D v}"
      "set (modified_ids new) \<subseteq> set (duplicated_ids new)"
    by blast
  from assms m have "d' = document (main h d (Some sel) system)" and "log = new"
    by (simp_all add: Let_def)
  with n show ?thesis by blast
qed

theorem only_duplicates_renamed_and_templated_witness:
  "document (main (logged ref_host) (template_doc, []) (Some [View3D 1, OtherView 2])
       (Some ''Architectural''))
     = (template_doc @ [(ref_view 5 ''A_Y_Z'' False)\<lparr>ref_template := Some 3\<rparr>],
        [DuplicateCall 1 5, SetName 5 ''A_Y_Z'', SetViewTemplateId 5 3]) \<and>
   document (main ref_host template_doc (Some [View3D 1, OtherView 2]) (Some ''Architectural''))
     = template_doc @ [(ref_view 5 ''A_Y_Z'' False)\<lparr>ref_template := Some 3\<rparr>] \<and>
   Id (View3D 1) \<notin> set (modified_ids [DuplicateCall 1 5, SetName 5 ''A_Y_Z'', SetViewTemplateId 5 3])"
proof -
  let ?log = "[DuplicateCall 1 5, SetName 5 ''A_Y_Z'', SetViewTemplateId 5 3]"
  have run: "document (main (logged ref_host) (template_doc, []) (Some [View3D 1, OtherView 2])
       (Some ''Architectural''))
     = (template_doc @ [(ref_view 5 ''A_Y_Z'' False)\<lparr>ref_template := Some 3\<rparr>], ?log)"
    by code_simp
  have "Id (View3D 1) \<notin> set (duplicated_ids ?log)"
    by simp
  with only_duplicates_renamed_and_templated [OF run] run show ?thesis
    by simp
qed

subsection \<open>Which views are processed\<close>

lemma logged_rename_attempts_sources:
  assumes "rename_attempts (logged h) n dv old_name ((d, log), out) new_name
             = ((d', log'), out', name')"
  shows "duplicated_sources log' = duplicated_sources log"
proof -
  from logged_rename_attempts [of h n dv old_name d log out new_name] obtain new where
    r: "rename_attempts (logged h) n dv old_name ((d, log), out) new_name
           = (case rename_attempts h n dv old_name (d, out) new_name of
                (d', out', name') \<Rightarrow> ((d', log @ new), out', name'))"
    and n: "duplicated_sources new = []"
    by blast
  from r assms have "log' = log @ new"
    by (simp split: prod.splits)
  with n show ?thesis by (simp add: duplicated_sources_append)
qed

lemma logged_assign_template_sources:
  assumes "assign_template (logged h) template_name dv new_name ((d, log), out)
             = Inr ((d', log'), out')"
  shows "duplicated_sources log' = duplicated_sources log"
proof -
  from logged_assign_template [of h template_name dv new_name d log out] obtain new where
    r: "assign_template (logged h) template_name dv new_name ((d, log), out)
           = (case assign_template h template_name dv new_name (d, out) of
                Inl e \<Rightarrow> Inl e
              | Inr (d', out') \<Rightarrow> Inr ((d', log @ new), out'))"
    and n: "duplicated_sources new = []"
    by blast
  from r assms have "log' = log @ new"
    by (simp split: sum.splits prod.splits)
  with n show ?thesis by (simp add: duplicated_sources_append)
qed

lemma logged_process_view_sources:
  assumes "process_view (logged h) pre template_name view ((d, log), out)
             = Inr ((d', log'), out')"
  shows "duplicated_sources log' = duplicated_sources log @ [view]"
proof (cases "Duplicate h d view")
  case (Inl e)
  with assms show ?thesis
    by (simp add: process_view_def logged_simps)
next
  case (Inr p)
  then obtain db dv where dup: "Duplicate h d view = Inr (db, dv)"
    by (cases p) auto
  let ?log = "log @ [DuplicateCall view dv]"
  have ldup: "Duplicate (logged h) (d, log) view = Inr ((db, ?log), dv)"
    using dup by (simp add: logged_simps)
  obtain dc logc outc name' where
    r: "rename_attempts (logged h) 20 dv (get_Name (logged h) (db, ?log) view) ((db, ?log), out)
          (compute_new_name pre (get_Name (logged h) (db, ?log) view))
            = ((dc, logc), outc, name')"
    by (metis surj_pair)
  from logged_rename_attempts_sources [OF r]
  have c: "duplicated_sources logc = duplicated_sources log @ [view]"
    by (simp add: duplicated_sources_append)
  from process_view_after_Duplicate [OF ldup r, of template_name] assms
  have "assign_template (logged h) template_name dv name' ((dc, logc), outc)
      = Inr ((d', log'), out')"
    by simp
  from logged_assign_template_sources [OF this] c show ?thesis by simp
qed

lemma logged_for_views_sources:
  "for_views (logged h) pre template_name sel ((d, log), out, n) = Inr ((d', log'), out', n')
   \<Longrightarrow> duplicated_sources log'
         = duplicated_sources log @ map Id (filter isinstance_View3D sel)"
proof (induction sel arbitrary: d log out n)
  case Nil
  then show ?case by simp
next
  case (Cons view sel)
  show ?case
  proof (cases view)
    case (OtherView i)
    with Cons.prems have "for_views (logged h) pre template_name sel ((d, log), out, n)
        = Inr ((d', log'), out', n')"
      by simp
    from Cons.IH [OF this] OtherView show ?thesis by simp
  next
    case (View3D i)
    with Cons.prems obtain db logb outb where
      p: "process_view (logged h) pre template_name i ((d, log), out) = Inr ((db, logb), outb)"
      and f: "for_views (logged h) pre template_name sel ((db, logb), outb, n + 1)
        = Inr ((d', log'), out', n')"
      by (auto split: sum.splits prod.splits)
    from Cons.IH [OF f] logged_process_view_sources [OF p] View3D
    show ?thesis by simp
  qed
qed

lemma happy_process_view:
  assumes "Duplicate h d i = Inr (db, dv)"
    and "set_Name h db dv (compute_new_name pre (get_Name h db i)) = Inr dc"
    and "find_template h dc template_name (collect_Views h dc) = Some t"
    and "set_ViewTemplateId h dc dv t = Inr dd"
  shows "process_view h pre template_name i (d, out)
           = Inr (dd, out @ [get_Name h db i @ '' -> '' @ compute_new_name pre (get_Name h db i)])"
proof -
  let ?old = "get_Name h db i"
  let ?name = "compute_new_name pre ?old"
  have "set_Name h db dv (?name @ replicate 0 (CHR ''*'')) = Inr dc"
    using assms(2) by simp
  then have "rename_attempts h 20 dv ?old (db, out) ?name
      = (dc, out @ [?old @ '' -> '' @ ?name @ replicate 0 (CHR ''*'')],
         ?name @ replicate 0 (CHR ''*''))"
    by (intro rename_attempts_returns_at) auto
  then have "rename_attempts h 20 dv ?old (db, out) ?name
      = (dc, out @ [?old @ '' -> '' @ ?name], ?name)"
    by simp
  with assms(1) have "process_view h pre template_name i (d, out)
      = assign_template h template_name dv ?name (dc, out @ [?old @ '' -> '' @ ?name])"
    by (rule process_view_after_Duplicate)
  with assms(3,4) show ?thesis by (simp add: assign_template_def)
qed

text \<open>
  C7. An entry of the selection that is not a 3D view is passed over with the document,
  the console and the counter as they are. A 3D entry is passed to \<^verbatim>\<open>Duplicate\<close>; the
  duplicate goes through the retry of the name assignment, starting from the computed
  name, and then through the template step, and the entry is counted: when the host
  accepts the name and the template, the document the loop goes on with is the one where
  the duplicate has the computed name and the template. In a run that commits, the views
  that were duplicated are exactly the 3D entries of the selection, each once and in
  order; the whole transaction is the one on the selection with the other entries
  removed, and the number in the summary dialog is the number of 3D entries.
\<close>

theorem only_View3D_entries_processed_and_counted:
  "for_views h pre template_name (OtherView i # rest) (d, out, n)
     = for_views h pre template_name rest (d, out, n) \<and>
   for_views h pre template_name (View3D i # rest) (d, out, n)
     = (case Duplicate h d i of
          Inl e \<Rightarrow> Inl (e, out)
        | Inr (db, dv) \<Rightarrow>
            (case rename_attempts h 20 dv (get_Name h db i) (db, out)
                    (compute_new_name pre (get_Name h db i)) of
               (dc, outc, name') \<Rightarrow>
                 (case assign_template h template_name dv name' (dc, outc) of
                    Inl e \<Rightarrow> Inl e
                  | Inr (dd, outd) \<Rightarrow> for_views h pre template_name rest (dd, outd, n + 1)))) \<and>
   (Duplicate h d i = Inr (db, dv) \<and>
    set_Name h db dv (compute_new_name pre (get_Name h db i)) = Inr dc \<and>
    find_template h dc template_name (collect_Views h dc) = Some t \<and>
    set_ViewTemplateId h dc dv t = Inr dd \<longrightarrow>
      for_views h pre template_name (View3D i # rest) (d, out, n)
        = for_views h pre template_name rest
            (dd, out @ [get_Name h db i @ '' -> '' @ compute_new_name pre (get_Name h db i)],
             n + 1)) \<and>
   (status (main (logged h) (d, []) (Some sel) system) = Committed \<and>
    document (main (logged h) (d, []) (Some sel) system) = (d', log) \<longrightarrow>
      duplicated_sources log = map Id (filter isinstance_View3D sel)) \<and>
   run_transaction h d sel pre template_name
     = run_transaction h d (filter isinstance_View3D sel) pre template_name \<and>
   (status (main h d (Some sel) system) = Committed \<longrightarrow>
      alerts (main h d (Some sel) system)
        = [str_nat (length (filter isinstance_View3D sel))
             @ '' views duplicated, renamed, and template applied.''])"
proof (intro conjI impI)
  show "for_views h pre template_name (OtherView i # rest) (d, out, n)
     = for_views h pre template_name rest (d, out, n)"
    by simp
next
  show "for_views h pre template_name (View3D i # rest) (d, out, n)
     = (case Duplicate h d i of
          Inl e \<Rightarrow> Inl (e, out)
        | Inr (db, dv) \<Rightarrow>
            (case rename_attempts h 20 dv (get_Name h db i) (db, out)
                    (compute_new_name pre (get_Name h db i)) of
               (dc, outc, name') \<Rightarrow>
                 (case assign_template h template_name dv name' (dc, outc) of
                    Inl e \<Rightarrow> Inl e
                  | Inr (dd, outd) \<Rightarrow> for_views h pre template_name rest (dd, outd, n + 1))))"
    by (simp add: process_view_def Let_def split: sum.splits prod.splits)
next
  assume "Duplicate h d i = Inr (db, dv) \<and>
    set_Name h db dv (compute_new_name pre (get_Name h db i)) = Inr dc \<and>
    find_template h dc template_name (collect_Views h dc) = Some t \<and>
    set_ViewTemplateId h dc dv t = Inr dd"
  then have "process_view h pre template_name i (d, out)
      = Inr (dd, out @ [get_Name h db i @ '' -> '' @ compute_new_name pre (get_Name h db i)])"
    by (intro happy_process_view) auto
  then show "for_views h pre template_name (View3D i # rest) (d, out, n)
        = for_views h pre template_name rest
            (dd, out @ [get_Name h db i @ '' -> '' @ compute_new_name pre (get_Name h db i)],
             n + 1)"
    by simp
next
  assume a: "status (main (logged h) (d, []) (Some sel) system) = Committed \<and>
    document (main (logged h) (d, []) (Some sel) system) = (d', log)"
  then have c: "status (main (logged h) (d, []) (Some sel) system) = Committed"
    by simp
  from main_Committed [OF c] obtain sys entry where
    "system = Some sys" "map_of system_mapping sys = Some entry" and
    m: "main (logged h) (d, []) (Some sel) system
          = run_transaction (logged h) (d, []) sel (prefix entry) (template entry)"
    by auto
  from c m obtain st where
    f: "for_views (logged h) (prefix entry) (template entry) sel ((d, []), [], 0) = Inr st"
    by (cases "for_views (logged h) (prefix entry) (template entry) sel ((d, []), [], 0)")
      (auto simp: run_transaction_def)
  obtain df logf outf nf where st: "st = ((df, logf), outf, nf)"
    by (metis surj_pair)
  from a m f st have "logf = log"
    by (simp add: run_transaction_def)
  with logged_for_views_sources [OF f [unfolded st]]
  show "duplicated_sources log = map Id (filter isinstance_View3D sel)"
    by simp
next
  show "run_transaction h d sel pre template_name
     = run_transaction h d (filter isinstance_View3D sel) pre template_name"
    by (simp add: run_transaction_def for_views_filter)
next
  assume c: "status (main h d (Some sel) system) = Committed"
  from main_Committed [OF this] obtain sys entry where
    "system = Some sys" "map_of system_mapping sys = Some entry" and
    m: "main h d (Some sel) system = run_transaction h d sel (prefix entry) (template entry)"
    by auto
  from c show "alerts (main h d (Some sel) system)
        = [str_nat (length (filter isinstance_View3D sel))
             @ '' views duplicated, renamed, and template applied.'']"
    unfolding m by (rule run_transaction_Committed)
qed

lemma str_nat_1: "str_nat (Suc 0) = ''1''"
  by code_simp

theorem only_View3D_entries_processed_and_counted_witness:
  "for_views ref_host ''A_'' ''ARCHITECTURE GLUE'' [View3D 1, OtherView 3] (template_doc, [], 0)
     = Inr (template_doc @ [(ref_view 5 ''A_Y_Z'' False)\<lparr>ref_template := Some 3\<rparr>],
            [''X_Y_Z -> A_Y_Z''], 1) \<and>
   document (main (logged ref_host) (template_doc, []) (Some [OtherView 2, View3D 1, OtherView 3])
      (Some ''Architectural''))
     = (template_doc @ [(ref_view 5 ''A_Y_Z'' False)\<lparr>ref_template := Some 3\<rparr>],
        [DuplicateCall 1 5, SetName 5 ''A_Y_Z'', SetViewTemplateId 5 3]) \<and>
   duplicated_sources [DuplicateCall 1 5, SetName 5 ''A_Y_Z'', SetViewTemplateId 5 3] = [1] \<and>
   status (main ref_host template_doc (Some [OtherView 2, View3D 1, OtherView 3])
      (Some ''Architectural'')) = Committed \<and>
   alerts (main ref_host template_doc (Some [OtherView 2, View3D 1, OtherView 3])
      (Some ''Architectural''))
     = [''1 views duplicated, renamed, and template applied.'']"
proof -
  let ?sel = "[OtherView 2, View3D 1, OtherView 3]"
  let ?db = "template_doc @ [ref_view 5 ''X_Y_Z Copy 1'' False]"
  let ?dc = "template_doc @ [ref_view 5 ''A_Y_Z'' False]"
  let ?dd = "template_doc @ [(ref_view 5 ''A_Y_Z'' False)\<lparr>ref_template := Some 3\<rparr>]"
  let ?log = "[DuplicateCall 1 5, SetName 5 ''A_Y_Z'', SetViewTemplateId 5 3]"
  have n: "get_Name ref_host ?db 1 = ''X_Y_Z''"
    by code_simp
  have e: "compute_new_name ''A_'' ''X_Y_Z'' = ''A_Y_Z''"
    by code_simp
  have happy: "Duplicate ref_host template_doc 1 = Inr (?db, 5) \<and>
      set_Name ref_host ?db 5 (compute_new_name ''A_'' (get_Name ref_host ?db 1)) = Inr ?dc \<and>
      find_template ref_host ?dc ''ARCHITECTURE GLUE'' (collect_Views ref_host ?dc) = Some 3 \<and>
      set_ViewTemplateId ref_host ?dc 5 3 = Inr ?dd"
    by code_simp
  note T = only_View3D_entries_processed_and_counted
    [where h = ref_host and d = template_doc and sel = ?sel
       and system = "Some ''Architectural''" and i = 1 and db = ?db and dv = 5 and dc = ?dc
       and t = 3 and dd = ?dd and pre = "''A_''" and template_name = "''ARCHITECTURE GLUE''"
       and rest = "[OtherView 3]" and out = "[]" and n = 0 and d' = ?dd and log = ?log]
  note T [THEN conjunct2, THEN conjunct2, THEN conjunct1, THEN mp, OF happy]
  then have a: "for_views ref_host ''A_'' ''ARCHITECTURE GLUE'' [View3D 1, OtherView 3]
      (template_doc, [], 0) = Inr (?dd, [''X_Y_Z -> A_Y_Z''], 1)"
    unfolding n e by simp
  have c: "status (main ref_host template_doc (Some ?sel) (Some ''Architectural'')) = Committed"
    by code_simp
  have lc: "status (main (logged ref_host) (template_doc, []) (Some ?sel)
      (Some ''Architectural'')) = Committed"
    by code_simp
  have run: "document (main (logged ref_host) (template_doc, []) (Some ?sel)
      (Some ''Architectural'')) = (?dd, ?log)"
    by code_simp
  from T [THEN conjunct2, THEN conjunct2, THEN conjunct2, THEN conjunct1] lc run
  have b: "duplicated_sources ?log = map Id (filter isinstance_View3D ?sel)"
    by simp
  from T [THEN conjunct2, THEN conjunct2, THEN conjunct2, THEN conjunct2, THEN conjunct2] c
  have "alerts (main ref_host template_doc (Some ?sel) (Some ''Architectural''))
      = [''1 views duplicated, renamed, and template applied.'']"
    by (simp add: str_nat_1)
  with a b c run show ?thesis by simp
qed

subsection \<open>Exceptions and the transaction\<close>

lemma for_views_append:
  "for_views h pre template_name (xs @ ys) (d, out, n)
     = (case for_views h pre template_name xs (d, out, n) of
          Inl e \<Rightarrow> Inl e
        | Inr st \<Rightarrow> for_views h pre template_name ys st)"
proof (induction xs arbitrary: d out n)
  case Nil
  show ?case by simp
next
  case (Cons x xs)
  show ?case
  proof (cases x)
    case (View3D i)
    then show ?thesis
      using Cons.IH by (simp split: sum.splits prod.splits)
  next
    case (OtherView i)
    then show ?thesis
      using Cons.IH by simp
  qed
qed

text \<open>
  C2. When the loop body raises at a 3D view of the selection (an exception leaves it:
  the retry of the name assignment catches its own), after the views before it were
  processed, the run ends with the document it started with, whatever was duplicated,
  renamed or given a template before; its only dialog is the error dialog, which holds
  the text of the exception, and the transaction is rolled back.
\<close>

theorem escaping_exception_rolls_back:
  assumes "map_of system_mapping sys = Some entry"
    and "for_views h (prefix entry) (template entry) before (d, [], 0) = Inr (da, outa, na)"
    and "process_view h (prefix entry) (template entry) view (da, outa) = Inl (e, outb)"
  shows "main h d (Some (before @ View3D view # rest)) (Some sys)
           = \<lparr>document = d, console = outb, alerts = [''An error occurred: '' @ e],
              status = RolledBack\<rparr>"
proof -
  have "for_views h (prefix entry) (template entry) (before @ View3D view # rest) (d, [], 0)
      = Inl (e, outb)"
    using assms(2,3) by (simp add: for_views_append)
  then have "run_transaction h d (before @ View3D view # rest) (prefix entry) (template entry)
      = \<lparr>document = d, console = outb, alerts = [''An error occurred: '' @ e],
         status = RolledBack\<rparr>"
    by (simp add: run_transaction_def)
  moreover have "sys \<noteq> []"
    using assms(1) by (auto simp: system_mapping_def)
  ultimately show ?thesis
    using assms(1) by (simp add: main_def)
qed

theorem escaping_exception_rolls_back_witness:
  "for_views ref_host ''A_'' ''ARCHITECTURE GLUE'' [View3D 1] (template_doc, [], 0)
     = Inr (template_doc @ [(ref_view 5 ''A_Y_Z'' False)\<lparr>ref_template := Some 3\<rparr>],
            [''X_Y_Z -> A_Y_Z''], 1) \<and>
   Duplicate ref_host (template_doc @ [(ref_view 5 ''A_Y_Z'' False)\<lparr>ref_template := Some 3\<rparr>]) 9
     = Inl ''The view cannot be duplicated.'' \<and>
   main ref_host template_doc (Some [View3D 1, View3D 9]) (Some ''Architectural'')
     = \<lparr>document = template_doc, console = [''X_Y_Z -> A_Y_Z''],
        alerts = [''An error occurred: The view cannot be duplicated.''],
        status = RolledBack\<rparr> \<and>
   set_ViewTemplateId ref_host (plain_doc @ [ref_view 3 ''A_Y_Z'' False]) 3 2
     = Inl ''The view is not a view template.'' \<and>
   main ref_host plain_doc (Some [View3D 1]) (Some ''Architectural'')
     = \<lparr>document = plain_doc, console = [''X_Y_Z -> A_Y_Z''],
        alerts = [''An error occurred: The view is not a view template.''],
        status = RolledBack\<rparr>"
proof -
  let ?entry = "\<lparr>prefix = ''A_'', template = ''ARCHITECTURE GLUE''\<rparr>"
  let ?da = "template_doc @ [(ref_view 5 ''A_Y_Z'' False)\<lparr>ref_template := Some 3\<rparr>]"
  have m: "map_of system_mapping ''Architectural'' = Some ?entry"
    by (simp add: system_mapping_def)
  have f: "for_views ref_host ''A_'' ''ARCHITECTURE GLUE'' [View3D 1] (template_doc, [], 0)
      = Inr (?da, [''X_Y_Z -> A_Y_Z''], 1)"
    by code_simp
  then have f': "for_views ref_host (prefix ?entry) (template ?entry) [View3D 1]
      (template_doc, [], 0) = Inr (?da, [''X_Y_Z -> A_Y_Z''], 1)"
    by simp
  have dup: "Duplicate ref_host ?da 9 = Inl ''The view cannot be duplicated.''"
    by code_simp
  then have p: "process_view ref_host (prefix ?entry) (template ?entry) 9
      (?da, [''X_Y_Z -> A_Y_Z'']) = Inl (''The view cannot be duplicated.'', [''X_Y_Z -> A_Y_Z''])"
    by (simp add: process_view_def)
  note first = escaping_exception_rolls_back [OF m f' p, of "[]"]
  have g: "for_views ref_host (prefix ?entry) (template ?entry) [] (plain_doc, [], 0)
      = Inr (plain_doc, [], 0)"
    by simp
  have t: "set_ViewTemplateId ref_host (plain_doc @ [ref_view 3 ''A_Y_Z'' False]) 3 2
      = Inl ''The view is not a view template.''"
    by code_simp
  have "process_view ref_host ''A_'' ''ARCHITECTURE GLUE'' 1 (plain_doc, [])
      = Inl (''The view is not a view template.'', [''X_Y_Z -> A_Y_Z''])"
    by code_simp
  then have q: "process_view ref_host (prefix ?entry) (template ?entry) 1 (plain_doc, [])
      = Inl (''The view is not a view template.'', [''X_Y_Z -> A_Y_Z''])"
    by simp
  note second = escaping_exception_rolls_back [OF m g q, of "[]"]
  from first second f dup t show ?thesis by simp
qed

end
